theory Spec2Isabelle
  imports Main "HOL-Library.Log_Nat"
begin

section \<open>CrediScore fraud detection service: the scoring engine\<close>

text \<open>
  A shallow embedding of \<^verbatim>\<open>backend/fraud-detection-service/main.py\<close>: the analyzers
  \<^verbatim>\<open>calculate_text_quality_score\<close>, \<^verbatim>\<open>analyze_review_sentiment\<close>,
  \<^verbatim>\<open>detect_review_patterns\<close>, \<^verbatim>\<open>validate_receipt_consistency\<close>,
  \<^verbatim>\<open>calculate_string_similarity\<close>, \<^verbatim>\<open>levenshtein_distance\<close> and the aggregation
  in \<^verbatim>\<open>detect_fraud\<close>.

  Conventions.
  \<^item> A Python \<^verbatim>\<open>str\<close> is a \<open>string\<close>; a \<open>char\<close> is read as the code point of the
    same number (0 to 255), and the library functions on characters (\<^verbatim>\<open>str.isspace\<close>,
    \<^verbatim>\<open>str.lower\<close>, the regular expression classes) are the tables of Python 3 on
    these code points.
  \<^item> A Python \<^verbatim>\<open>int\<close> is an \<open>int\<close>; a length is a \<open>nat\<close>.
  \<^item> A finite Python \<^verbatim>\<open>float\<close> is the rational number it denotes; every float
    operation of the source rounds its exact result to binary64 (\<open>fl\<close> below).
  \<^item> An exception is a value: a function that can raise returns \<open>py_error + 'a\<close>.
\<close>

subsection \<open>Exceptions\<close>

datatype py_error = ZeroDivisionError | TypeError | ValueError

subsection \<open>binary64 arithmetic\<close>

text \<open>
  Round to nearest, ties to even, with a significand of 53 bits. The exponent is not
  bounded: the floats of this program are quotients and small multiples of string
  lengths and of counts, far from the overflow and the subnormal range of binary64.
\<close>

definition round_half_even :: "rat \<Rightarrow> int" where
  "round_half_even x =
     (let f = \<lfloor>x\<rfloor>; d = x - of_int f
      in if d < 1 / 2 then f
         else if 1 / 2 < d then f + 1
         else if even f then f else f + 1)"

text \<open>\<open>ilog2 x\<close> is the exponent \<open>e\<close> with \<open>2 ^ e \<le> x < 2 ^ (e + 1)\<close>, for \<open>x > 0\<close>.\<close>

definition ilog2 :: "rat \<Rightarrow> int" where
  "ilog2 x =
     (let (a, b) = quotient_of x; e = bitlen a - bitlen b
      in if x < 2 powi e then e - 1 else e)"

definition fl :: "rat \<Rightarrow> rat" where
  "fl x =
     (if x = 0 then 0
      else let u = 2 powi (ilog2 \<bar>x\<bar> - 52)
           in sgn x * of_int (round_half_even (\<bar>x\<bar> / u)) * u)"

text \<open>\<^verbatim>\<open>a / b\<close> on two ints: true division, correctly rounded; raises on \<open>b = 0\<close>.\<close>

definition py_truediv :: "int \<Rightarrow> int \<Rightarrow> py_error + rat" where
  "py_truediv a b = (if b = 0 then Inl ZeroDivisionError else Inr (fl (of_int a / of_int b)))"

text \<open>\<^verbatim>\<open>float(n)\<close>, and the float operations \<^verbatim>\<open>x * y\<close>, \<^verbatim>\<open>x + y\<close>, \<^verbatim>\<open>x - y\<close>.\<close>

definition float_of_int :: "int \<Rightarrow> rat" where
  "float_of_int n = fl (of_int n)"

definition fmul :: "rat \<Rightarrow> rat \<Rightarrow> rat" where
  "fmul x y = fl (x * y)"

definition fadd :: "rat \<Rightarrow> rat \<Rightarrow> rat" where
  "fadd x y = fl (x + y)"

definition fsub :: "rat \<Rightarrow> rat \<Rightarrow> rat" where
  "fsub x y = fl (x - y)"

subsection \<open>\<^verbatim>\<open>levenshtein_distance\<close>\<close>

text \<open>
  The matrix is a list of rows. \<^verbatim>\<open>matrix[i][j] = v\<close> is \<open>set_cell\<close>, \<^verbatim>\<open>matrix[i][j]\<close> is
  \<open>get_cell\<close>; every index the loops use is inside the matrix (\<open>shape\<close> lemmas below).
\<close>

type_synonym matrix = "int list list"

definition get_cell :: "matrix \<Rightarrow> nat \<Rightarrow> nat \<Rightarrow> int" where
  "get_cell M i j = M ! i ! j"

definition set_cell :: "matrix \<Rightarrow> nat \<Rightarrow> nat \<Rightarrow> int \<Rightarrow> matrix" where
  "set_cell M i j v = M[i := (M ! i)[j := v]]"

text \<open>The body of the inner loop, at row \<open>i\<close> and column \<open>j\<close> (both at least 1).\<close>

definition fill_cell :: "'a list \<Rightarrow> 'a list \<Rightarrow> nat \<Rightarrow> nat \<Rightarrow> matrix \<Rightarrow> matrix" where
  "fill_cell str1 str2 i j M =
     (if str1 ! (i - 1) = str2 ! (j - 1)
      then set_cell M i j (get_cell M (i - 1) (j - 1))
      else set_cell M i j
             (min (get_cell M (i - 1) j + 1)
                (min (get_cell M i (j - 1) + 1) (get_cell M (i - 1) (j - 1) + 1))))"

definition levenshtein_distance :: "'a list \<Rightarrow> 'a list \<Rightarrow> int" where
  "levenshtein_distance str1 str2 =
     (let m = length str1; n = length str2;
          M0 = replicate (m + 1) (replicate (n + 1) 0);
          M1 = fold (\<lambda>i M. set_cell M i 0 (int i)) [0..<m + 1] M0;
          M2 = fold (\<lambda>j M. set_cell M 0 j (int j)) [0..<n + 1] M1;
          M3 = fold (\<lambda>i M. fold (fill_cell str1 str2 i) [1..<n + 1] M) [1..<m + 1] M2
      in get_cell M3 m n)"

subsection \<open>\<^verbatim>\<open>calculate_string_similarity\<close>\<close>

definition longer_of :: "'a list \<Rightarrow> 'a list \<Rightarrow> 'a list" where
  "longer_of str1 str2 = (if length str1 > length str2 then str1 else str2)"

definition shorter_of :: "'a list \<Rightarrow> 'a list \<Rightarrow> 'a list" where
  "shorter_of str1 str2 = (if length str1 > length str2 then str2 else str1)"

definition calculate_string_similarity :: "'a list \<Rightarrow> 'a list \<Rightarrow> py_error + rat" where
  "calculate_string_similarity str1 str2 =
     (if str1 = [] \<or> str2 = [] then Inr 0
      else let longer = longer_of str1 str2; shorter = shorter_of str1 str2
           in if length longer = 0 then Inr 1
              else let distance = levenshtein_distance longer shorter
                   in py_truediv (int (length longer) - distance) (int (length longer)))"

subsection \<open>Strings: the library functions the analyzers call\<close>

text \<open>\<^verbatim>\<open>str.isspace\<close> on one character.\<close>

definition isspace :: "char \<Rightarrow> bool" where
  "isspace c =
     (let n = (of_char c :: nat)
      in (9 \<le> n \<and> n \<le> 13) \<or> (28 \<le> n \<and> n \<le> 32) \<or> n = 133 \<or> n = 160)"

text \<open>\<^verbatim>\<open>str.lower\<close>: the letters A to Z, and the capital letters of Latin-1.\<close>

definition lower_char :: "char \<Rightarrow> char" where
  "lower_char c =
     (let n = (of_char c :: nat)
      in if (65 \<le> n \<and> n \<le> 90) \<or> (192 \<le> n \<and> n \<le> 222 \<and> n \<noteq> 215)
         then char_of (n + 32) else c)"

definition lower :: "string \<Rightarrow> string" where
  "lower text = map lower_char text"

text \<open>\<^verbatim>\<open>text.strip()\<close>.\<close>

definition strip :: "string \<Rightarrow> string" where
  "strip text = rev (dropWhile isspace (rev (dropWhile isspace text)))"

text \<open>\<^verbatim>\<open>text.split()\<close>: the maximal runs of characters that are not whitespace.\<close>

fun split_ws_from :: "string \<Rightarrow> string \<Rightarrow> string list" where
  "split_ws_from cur [] = (if cur = [] then [] else [cur])"
| "split_ws_from cur (c # cs) =
     (if isspace c
      then (if cur = [] then split_ws_from [] cs else cur # split_ws_from [] cs)
      else split_ws_from (cur @ [c]) cs)"

definition split_ws :: "string \<Rightarrow> string list" where
  "split_ws text = split_ws_from [] text"

text \<open>\<^verbatim>\<open>text.split(sep)\<close> for a separator of one character.\<close>

fun split_on_from :: "char \<Rightarrow> string \<Rightarrow> string \<Rightarrow> string list" where
  "split_on_from sep cur [] = [cur]"
| "split_on_from sep cur (c # cs) =
     (if c = sep then cur # split_on_from sep [] cs else split_on_from sep (cur @ [c]) cs)"

definition split_on :: "char \<Rightarrow> string \<Rightarrow> string list" where
  "split_on sep text = split_on_from sep [] text"

text \<open>\<^verbatim>\<open>sub in text\<close>: \<open>sub\<close> occurs in \<open>text\<close> as a contiguous substring.\<close>

fun py_in :: "string \<Rightarrow> string \<Rightarrow> bool" where
  "py_in sub [] = (sub = [])"
| "py_in sub (c # cs) = (take (length sub) (c # cs) = sub \<or> py_in sub cs)"

text \<open>\<^verbatim>\<open>str(n)\<close> for an int.\<close>

fun str_nat :: "nat \<Rightarrow> string" where
  "str_nat n =
     (if n < 10 then [char_of (48 + n)] else str_nat (n div 10) @ [char_of (48 + n mod 10)])"

definition str_int :: "int \<Rightarrow> string" where
  "str_int i = (if i < 0 then ''-'' @ str_nat (nat (- i)) else str_nat (nat i))"

text \<open>
  \<^verbatim>\<open>f"{x:.df}"\<close> for a finite float: the exact value rounded to \<open>d\<close> decimals, ties to
  even, with at least one digit before the point.
\<close>

definition format_fixed :: "nat \<Rightarrow> rat \<Rightarrow> string" where
  "format_fixed d x =
     (let n = nat (round_half_even (\<bar>x\<bar> * 10 ^ d));
          frac = str_nat (n mod 10 ^ d)
      in (if x < 0 then ''-'' else []) @ str_nat (n div 10 ^ d) @ ''.''
           @ replicate (d - length frac) CHR ''0'' @ frac)"

text \<open>
  A float that comes with the request (\<^verbatim>\<open>amount\<close>, \<^verbatim>\<open>confidence\<close>) can also be a negative
  zero, an infinity or a NaN.
\<close>

datatype pyfloat = Finite rat | NegZero | PosInf | NegInf | NaN

text \<open>The truth value of a float: false for both zeros only.\<close>

fun float_truthy :: "pyfloat \<Rightarrow> bool" where
  "float_truthy (Finite x) = (x \<noteq> 0)"
| "float_truthy NegZero = False"
| "float_truthy PosInf = True"
| "float_truthy NegInf = True"
| "float_truthy NaN = True"

text \<open>\<^verbatim>\<open>x <= c\<close> and \<^verbatim>\<open>x < c\<close> for a finite constant \<open>c\<close>.\<close>

fun float_le :: "pyfloat \<Rightarrow> rat \<Rightarrow> bool" where
  "float_le (Finite x) c = (x \<le> c)"
| "float_le NegZero c = (0 \<le> c)"
| "float_le PosInf c = False"
| "float_le NegInf c = True"
| "float_le NaN c = False"

fun float_less :: "pyfloat \<Rightarrow> rat \<Rightarrow> bool" where
  "float_less (Finite x) c = (x < c)"
| "float_less NegZero c = (0 < c)"
| "float_less PosInf c = False"
| "float_less NegInf c = True"
| "float_less NaN c = False"

fun format_float :: "nat \<Rightarrow> pyfloat \<Rightarrow> string" where
  "format_float d (Finite x) = format_fixed d x"
| "format_float d NegZero = ''-'' @ format_fixed d 0"
| "format_float d PosInf = ''inf''"
| "format_float d NegInf = ''-inf''"
| "format_float d NaN = ''nan''"

subsection \<open>Regular expressions: \<^verbatim>\<open>re.search\<close> on the patterns of the service\<close>

text \<open>The classes \<^verbatim>\<open>\w\<close>, \<^verbatim>\<open>\d\<close> and \<^verbatim>\<open>[A-Z]\<close> of a \<^verbatim>\<open>str\<close> pattern.\<close>

definition is_word_char :: "char \<Rightarrow> bool" where
  "is_word_char c =
     (let n = (of_char c :: nat)
      in (48 \<le> n \<and> n \<le> 57) \<or> (65 \<le> n \<and> n \<le> 90) \<or> n = 95 \<or> (97 \<le> n \<and> n \<le> 122)
         \<or> n = 170 \<or> n = 178 \<or> n = 179 \<or> n = 181 \<or> n = 185 \<or> n = 186
         \<or> (188 \<le> n \<and> n \<le> 190) \<or> (192 \<le> n \<and> n \<le> 214) \<or> (216 \<le> n \<and> n \<le> 246)
         \<or> 248 \<le> n)"

definition is_digit :: "char \<Rightarrow> bool" where
  "is_digit c = (let n = (of_char c :: nat) in 48 \<le> n \<and> n \<le> 57)"

definition is_upper_AZ :: "char \<Rightarrow> bool" where
  "is_upper_AZ c = (let n = (of_char c :: nat) in 65 \<le> n \<and> n \<le> 90)"

text \<open>
  A pattern \<^verbatim>\<open>\b(w1|w2|...)\b\<close> searched with \<^verbatim>\<open>re.IGNORECASE\<close>, every \<open>w\<close> a phrase in
  lower case that starts and ends with a letter: some \<open>w\<close> occurs in the text, letters
  compared without case, with no word character right before it and none right after.
  \<open>prev\<close> says whether the character before the current position is a word character.
\<close>

definition word_at :: "string \<Rightarrow> string \<Rightarrow> bool" where
  "word_at w rest =
     (length w \<le> length rest \<and> map lower_char (take (length w) rest) = w \<and>
      (case drop (length w) rest of [] \<Rightarrow> True | d # _ \<Rightarrow> \<not> is_word_char d))"

fun search_words_from :: "string list \<Rightarrow> bool \<Rightarrow> string \<Rightarrow> bool" where
  "search_words_from ws prev [] = False"
| "search_words_from ws prev (c # cs) =
     ((\<not> prev \<and> list_ex (\<lambda>w. word_at w (c # cs)) ws)
      \<or> search_words_from ws (is_word_char c) cs)"

definition search_words :: "string list \<Rightarrow> string \<Rightarrow> bool" where
  "search_words ws text = search_words_from ws False text"

text \<open>
  A pattern \<^verbatim>\<open>C{n,}\<close> for a class \<open>C\<close>: the text has \<open>n\<close> characters of the class in a
  row. \<open>k\<close> counts the characters of the class that end at the current position.
\<close>

fun search_run_from :: "(char \<Rightarrow> bool) \<Rightarrow> nat \<Rightarrow> nat \<Rightarrow> string \<Rightarrow> bool" where
  "search_run_from p n k [] = (n \<le> k)"
| "search_run_from p n k (c # cs) =
     (n \<le> k \<or> (if p c then search_run_from p n (Suc k) cs else search_run_from p n 0 cs))"

definition search_run :: "(char \<Rightarrow> bool) \<Rightarrow> nat \<Rightarrow> string \<Rightarrow> bool" where
  "search_run p n text = search_run_from p n 0 text"

text \<open>
  A pattern of the service: the text of the regular expression, which the reasons
  quote, and what \<^verbatim>\<open>re.search\<close> answers for it.
\<close>

record pattern =
  source :: string
  found_in :: "string \<Rightarrow> bool"

definition backslash :: char where
  "backslash = CHR 0x5C"

definition word_pattern :: "string \<Rightarrow> string list \<Rightarrow> pattern" where
  "word_pattern alternatives ws =
     \<lparr>source = [backslash] @ ''b('' @ alternatives @ '')'' @ [backslash] @ ''b'',
      found_in = search_words ws\<rparr>"

definition SUSPICIOUS_PATTERNS :: "pattern list" where
  "SUSPICIOUS_PATTERNS =
     [word_pattern ''fake|scam|fraud|cheat|steal|rob''
        [''fake'', ''scam'', ''fraud'', ''cheat'', ''steal'', ''rob''],
      word_pattern ''too good to be true|amazing|incredible|perfect''
        [''too good to be true'', ''amazing'', ''incredible'', ''perfect''],
      word_pattern (''avoid|stay away|don'' @ [backslash, CHR 0x27] @ ''t go|terrible|awful|horrible'')
        [''avoid'', ''stay away'', ''don't go'', ''terrible'', ''awful'', ''horrible''],
      word_pattern ''paid review|sponsored|advertisement''
        [''paid review'', ''sponsored'', ''advertisement''],
      word_pattern ''click here|visit|call now|limited time''
        [''click here'', ''visit'', ''call now'', ''limited time'']]"

definition SPAM_INDICATORS :: "pattern list" where
  "SPAM_INDICATORS =
     [\<lparr>source = ''[A-Z]{3,}'', found_in = search_run is_upper_AZ 3\<rparr>,
      \<lparr>source = ''!{3,}'', found_in = py_in ''!!!''\<rparr>,
      \<lparr>source = [backslash] @ ''$+'', found_in = py_in ''$''\<rparr>,
      \<lparr>source = ''www'' @ [backslash] @ ''.|http'',
       found_in = (\<lambda>text. py_in ''www.'' text \<or> py_in ''http'' text)\<rparr>,
      \<lparr>source = [backslash] @ ''d{10,}'', found_in = search_run is_digit 10\<rparr>]"

subsection \<open>\<^verbatim>\<open>calculate_text_quality_score\<close>\<close>

text \<open>The two penalty loops over the pattern tables.\<close>

definition penalise :: "rat \<Rightarrow> pattern list \<Rightarrow> string \<Rightarrow> rat \<Rightarrow> rat" where
  "penalise amount patterns text score =
     fold (\<lambda>p score. if found_in p text then fsub score amount else score) patterns score"

definition calculate_text_quality_score :: "string \<Rightarrow> rat" where
  "calculate_text_quality_score text =
     (if text = [] \<or> length (strip text) < 10 then 0
      else
        let score = 0;
            len = length text;
            score = (if 50 \<le> len \<and> len \<le> 200 then fadd score 30
                     else if (20 \<le> len \<and> len < 50) \<or> (200 < len \<and> len \<le> 500)
                     then fadd score 20
                     else fadd score 10);
            sentences = split_on CHR ''.'' text;
            score = (if length sentences > 1 then fadd score 20 else score);
            words = split_ws (lower text);
            unique_words = card (set words);
            score = (if of_nat unique_words > fmul (float_of_int (int (length words))) (fl (7 / 10))
                     then fadd score 20 else score);
            score = (if list_ex (\<lambda>p. py_in p text) [''.'', ''!'', ''?'']
                     then fadd score 10 else score);
            score = penalise 15 SUSPICIOUS_PATTERNS text score;
            score = penalise 10 SPAM_INDICATORS text score
        in max 0 (min 100 score))"

subsection \<open>\<^verbatim>\<open>analyze_review_sentiment\<close>\<close>

record sentiment =
  positive :: rat
  negative :: rat
  neutral :: rat

definition positive_words :: "string list" where
  "positive_words =
     [''good'', ''great'', ''excellent'', ''amazing'', ''wonderful'', ''fantastic'', ''love'',
      ''best'']"

definition negative_words :: "string list" where
  "negative_words =
     [''bad'', ''terrible'', ''awful'', ''horrible'', ''worst'', ''hate'', ''disgusting'',
      ''disappointed'']"

definition analyze_review_sentiment :: "string \<Rightarrow> py_error + sentiment" where
  "analyze_review_sentiment text =
     (let text_lower = lower text;
          positive_count = int (length (filter (\<lambda>word. py_in word text_lower) positive_words));
          negative_count = int (length (filter (\<lambda>word. py_in word text_lower) negative_words));
          total_words = int (length (split_ws text))
      in if total_words = 0 then Inr \<lparr>positive = 0, negative = 0, neutral = 1\<rparr>
         else
           case py_truediv positive_count total_words of
             Inl e \<Rightarrow> Inl e
           | Inr positive_score \<Rightarrow>
               (case py_truediv negative_count total_words of
                  Inl e \<Rightarrow> Inl e
                | Inr negative_score \<Rightarrow>
                    let neutral_score = fsub (fsub 1 positive_score) negative_score
                    in Inr \<lparr>positive = positive_score, negative = negative_score,
                            neutral = max 0 neutral_score\<rparr>))"

subsection \<open>\<^verbatim>\<open>detect_review_patterns\<close>\<close>

text \<open>
  The dictionary \<^verbatim>\<open>word_freq\<close> is an association list in the order of insertion;
  \<^verbatim>\<open>word_freq[word] = word_freq.get(word, 0) + 1\<close> is \<open>count_word\<close>.
\<close>

fun count_word :: "string \<Rightarrow> (string \<times> int) list \<Rightarrow> (string \<times> int) list" where
  "count_word word [] = [(word, 0 + 1)]"
| "count_word word ((k, v) # d) =
     (if k = word then (k, v + 1) # d else (k, v) # count_word word d)"

text \<open>\<^verbatim>\<open>max(values)\<close>: raises \<^verbatim>\<open>ValueError\<close> on an empty sequence.\<close>

definition py_max :: "int list \<Rightarrow> py_error + int" where
  "py_max values = (case values of [] \<Rightarrow> Inl ValueError | v # vs \<Rightarrow> Inr (fold max vs v))"

definition generic_phrases :: "string list" where
  "generic_phrases =
     [''good service'', ''nice place'', ''would recommend'', ''great experience'',
      ''bad service'', ''terrible experience'', ''would not recommend'']"

text \<open>The repetition check: the list of reasons it adds.\<close>

definition repetition_patterns :: "string \<Rightarrow> py_error + string list" where
  "repetition_patterns text =
     (let words = split_ws (lower text)
      in if length words > 10
         then
           let word_freq = fold count_word words []
           in case py_max (map snd word_freq) of
                Inl e \<Rightarrow> Inl e
              | Inr max_freq \<Rightarrow>
                  if of_int max_freq > fmul (float_of_int (int (length words))) (fl (3 / 10))
                  then Inr [''Excessive word repetition'']
                  else Inr []
         else Inr [])"

definition detect_review_patterns :: "string \<Rightarrow> py_error + string list" where
  "detect_review_patterns text =
     (case repetition_patterns text of
        Inl e \<Rightarrow> Inl e
      | Inr patterns \<Rightarrow>
          let patterns = patterns
                @ map (\<lambda>p. ''Suspicious language pattern: '' @ source p)
                    (filter (\<lambda>p. found_in p text) SUSPICIOUS_PATTERNS);
              patterns = patterns
                @ map (\<lambda>p. ''Spam indicator: '' @ source p)
                    (filter (\<lambda>p. found_in p text) SPAM_INDICATORS);
              patterns = (if list_ex (\<lambda>phrase. py_in phrase (lower text)) generic_phrases
                          then patterns @ [''Generic review phrases''] else patterns)
          in Inr patterns)"

subsection \<open>The request and the response\<close>

record ReceiptData =
  businessName :: "string option"
  businessAddress :: "string option"
  businessPhone :: "string option"
  amount :: "pyfloat option"
  date :: "string option"
  items :: "string list option"
  receiptNumber :: "string option"
  confidence :: pyfloat

record BusinessDetails =
  name :: string
  address :: "string option"
  phone :: "string option"
  email :: "string option"

record FraudDetectionRequest =
  review_text :: string
  receipt_data :: ReceiptData
  business_details :: BusinessDetails
  user_reputation :: int

record FraudDetectionResponse =
  isFraudulent :: bool
  confidence_out :: rat
  fraudReasons :: "string list"
  riskScore :: int

text \<open>The truth value of an optional string: present and not empty.\<close>

fun str_truthy :: "string option \<Rightarrow> bool" where
  "str_truthy None = False"
| "str_truthy (Some s) = (s \<noteq> [])"

subsection \<open>Dates and the clock\<close>

text \<open>
  A \<^verbatim>\<open>datetime\<close> is its wall-clock time in microseconds since 0001-01-01T00:00:00, and
  the offset of its \<^verbatim>\<open>tzinfo\<close> in seconds; \<open>None\<close> for a naive one, which has no \<^verbatim>\<open>tzinfo\<close>.
\<close>

record datetime =
  wall_micros :: int
  utcoffset :: "int option"

text \<open>
  What the service takes from its environment: the library's parser
  \<^verbatim>\<open>datetime.fromisoformat\<close> (\<open>None\<close> when it raises \<^verbatim>\<open>ValueError\<close>), whose grammar
  depends on the version of Python, and the clock \<^verbatim>\<open>datetime.now()\<close>, which is naive.
\<close>

record env =
  fromisoformat :: "string \<Rightarrow> datetime option"
  now :: int

text \<open>\<^verbatim>\<open>s.replace('Z', '+00:00')\<close>.\<close>

definition replace_Z :: "string \<Rightarrow> string" where
  "replace_Z s = concat (map (\<lambda>c. if c = CHR ''Z'' then ''+00:00'' else [c]) s)"

text \<open>\<^verbatim>\<open>timedelta.days\<close> of a difference of two naive datetimes: the floor of its days.\<close>

definition timedelta_days :: "int \<Rightarrow> int" where
  "timedelta_days micros = micros div 86400000000"

text \<open>
  The fixed-width core of the ISO format, which every version of the parser reads the
  same way: \<^verbatim>\<open>YYYY-MM-DD\<close>, then after any one character \<^verbatim>\<open>HH:MM:SS\<close>, then an offset
  \<^verbatim>\<open>+HH:MM\<close> or \<^verbatim>\<open>-HH:MM\<close>. \<open>fromisoformat_core\<close> answers \<open>None\<close> on every other string; it
  stands for the library only on strings of this core and on strings that are no date
  at all.
\<close>

definition digit_val :: "char \<Rightarrow> int option" where
  "digit_val c = (if is_digit c then Some (of_char c - 48) else None)"

fun number :: "string \<Rightarrow> int option" where
  "number [] = None"
| "number [c] = digit_val c"
| "number cs =
     (case (number (butlast cs), digit_val (last cs)) of
        (Some n, Some d) \<Rightarrow> Some (10 * n + d)
      | _ \<Rightarrow> None)"

definition is_leap :: "int \<Rightarrow> bool" where
  "is_leap y = (y mod 4 = 0 \<and> (y mod 100 \<noteq> 0 \<or> y mod 400 = 0))"

definition days_in_month :: "int \<Rightarrow> int \<Rightarrow> int" where
  "days_in_month y m =
     (if m = 2 then (if is_leap y then 29 else 28)
      else if m = 4 \<or> m = 6 \<or> m = 9 \<or> m = 11 then 30 else 31)"

definition days_before_year :: "int \<Rightarrow> int" where
  "days_before_year y = (y - 1) * 365 + (y - 1) div 4 - (y - 1) div 100 + (y - 1) div 400"

definition days_before_month :: "int \<Rightarrow> int \<Rightarrow> int" where
  "days_before_month y m = sum_list (map (days_in_month y) [1..m - 1])"

definition parse_date :: "string \<Rightarrow> int option" where
  "parse_date s =
     (if length s = 10 \<and> s ! 4 = CHR ''-'' \<and> s ! 7 = CHR ''-''
      then (case (number (take 4 s), number (take 2 (drop 5 s)), number (drop 8 s)) of
              (Some y, Some m, Some d) \<Rightarrow>
                if 1 \<le> y \<and> 1 \<le> m \<and> m \<le> 12 \<and> 1 \<le> d \<and> d \<le> days_in_month y m
                then Some (days_before_year y + days_before_month y m + (d - 1))
                else None
            | _ \<Rightarrow> None)
      else None)"

definition parse_time :: "string \<Rightarrow> int option" where
  "parse_time s =
     (if length s = 8 \<and> s ! 2 = CHR '':'' \<and> s ! 5 = CHR '':''
      then (case (number (take 2 s), number (take 2 (drop 3 s)), number (drop 6 s)) of
              (Some h, Some m, Some sec) \<Rightarrow>
                if h < 24 \<and> m < 60 \<and> sec < 60 then Some (h * 3600 + m * 60 + sec) else None
            | _ \<Rightarrow> None)
      else None)"

definition parse_offset :: "string \<Rightarrow> int option" where
  "parse_offset s =
     (if length s = 6 \<and> (s ! 0 = CHR ''+'' \<or> s ! 0 = CHR ''-'') \<and> s ! 3 = CHR '':''
      then (case (number (take 2 (drop 1 s)), number (drop 4 s)) of
              (Some h, Some m) \<Rightarrow>
                if h < 24 \<and> m < 60
                then Some ((if s ! 0 = CHR ''-'' then - 1 else 1) * (h * 3600 + m * 60))
                else None
            | _ \<Rightarrow> None)
      else None)"

definition fromisoformat_core :: "string \<Rightarrow> datetime option" where
  "fromisoformat_core s =
     (case parse_date (take 10 s) of
        None \<Rightarrow> None
      | Some days \<Rightarrow>
          if length s = 10
          then Some \<lparr>wall_micros = days * 86400000000, utcoffset = None\<rparr>
          else (case parse_time (take 8 (drop 11 s)) of
                  None \<Rightarrow> None
                | Some secs \<Rightarrow>
                    let micros = days * 86400000000 + secs * 1000000
                    in if length s = 19 then Some \<lparr>wall_micros = micros, utcoffset = None\<rparr>
                       else if length s = 25
                       then (case parse_offset (drop 19 s) of
                               None \<Rightarrow> None
                             | Some off \<Rightarrow> Some \<lparr>wall_micros = micros, utcoffset = Some off\<rparr>)
                       else None))"

subsection \<open>\<^verbatim>\<open>validate_receipt_consistency\<close>\<close>

text \<open>
  The date check: the reasons it adds, or the exception that leaves the function. The
  \<^verbatim>\<open>try\<close> catches \<^verbatim>\<open>ValueError\<close> only; comparing a datetime that has a \<^verbatim>\<open>tzinfo\<close> with the
  naive \<^verbatim>\<open>now\<close> raises \<^verbatim>\<open>TypeError\<close>.
\<close>

definition date_issues :: "env \<Rightarrow> string \<Rightarrow> py_error + string list" where
  "date_issues e d =
     (case fromisoformat e (replace_Z d) of
        None \<Rightarrow> Inr [''Invalid date format in receipt'']
      | Some receipt_date \<Rightarrow>
          (case utcoffset receipt_date of
             Some off \<Rightarrow> Inl TypeError
           | None \<Rightarrow>
               if wall_micros receipt_date > now e then Inr [''Future date in receipt'']
               else if timedelta_days (now e - wall_micros receipt_date) > 365
               then Inr [''Receipt too old (>1 year)'']
               else Inr []))"

text \<open>The similarity check of a receipt field against the business, below a threshold.\<close>

definition mismatch ::
  "string \<Rightarrow> rat \<Rightarrow> string option \<Rightarrow> string option \<Rightarrow> py_error + string list" where
  "mismatch label threshold field claimed =
     (if str_truthy field \<and> str_truthy claimed
      then (case calculate_string_similarity (lower (the field)) (lower (the claimed)) of
              Inl e \<Rightarrow> Inl e
            | Inr similarity \<Rightarrow>
                if similarity < threshold
                then Inr [label @ '' (similarity: '' @ format_fixed 2 similarity @ '')'']
                else Inr [])
      else Inr [])"

definition amount_issues :: "pyfloat option \<Rightarrow> string list" where
  "amount_issues a =
     (case a of
        None \<Rightarrow> []
      | Some x \<Rightarrow> if float_truthy x \<and> float_le x 0 then [''Invalid amount in receipt''] else [])"

definition validate_receipt_consistency ::
  "env \<Rightarrow> ReceiptData \<Rightarrow> BusinessDetails \<Rightarrow> py_error + string list" where
  "validate_receipt_consistency e receipt business =
     (case mismatch ''Business name mismatch'' (fl (7 / 10))
             (businessName receipt) (Some (name business)) of
        Inl err \<Rightarrow> Inl err
      | Inr name_issues \<Rightarrow>
          (case mismatch ''Address mismatch'' (fl (6 / 10))
                  (businessAddress receipt) (address business) of
             Inl err \<Rightarrow> Inl err
           | Inr address_issues \<Rightarrow>
               let issues = name_issues @ address_issues @ amount_issues (amount receipt)
               in if str_truthy (date receipt)
                  then (case date_issues e (the (date receipt)) of
                          Inl err \<Rightarrow> Inl err
                        | Inr ds \<Rightarrow> Inr (issues @ ds))
                  else Inr issues))"

subsection \<open>\<^verbatim>\<open>detect_fraud\<close>\<close>

text \<open>
  The handler catches every exception of the analyzers and raises
  \<^verbatim>\<open>HTTPException(status_code=500)\<close>; the model keeps the exception it was raised for.
\<close>

datatype http_exception = HTTPException nat py_error

text \<open>The running state of the handler: the reasons and the score so far.\<close>

type_synonym acc = "string list \<times> int"

definition text_quality_step :: "string \<Rightarrow> acc \<Rightarrow> acc" where
  "text_quality_step text a =
     (let text_quality = calculate_text_quality_score text
      in if text_quality < 30
         then (fst a @ [''Low text quality score: '' @ format_fixed 1 text_quality], snd a + 25)
         else a)"

definition patterns_step :: "string list \<Rightarrow> acc \<Rightarrow> acc" where
  "patterns_step patterns a = (fst a @ patterns, snd a + int (length patterns) * 10)"

definition sentiment_step :: "sentiment \<Rightarrow> acc \<Rightarrow> acc" where
  "sentiment_step s a =
     (if neutral s > fl (8 / 10) then (fst a @ [''Overly neutral sentiment''], snd a + 15)
      else a)"

definition reputation_step :: "int \<Rightarrow> acc \<Rightarrow> acc" where
  "reputation_step reputation a =
     (if reputation < 30
      then (fst a @ [''Low user reputation: '' @ str_int reputation], snd a + 20)
      else a)"

definition receipt_issues_step :: "string list \<Rightarrow> acc \<Rightarrow> acc" where
  "receipt_issues_step receipt_issues a =
     (fst a @ receipt_issues, snd a + int (length receipt_issues) * 15)"

definition receipt_confidence_step :: "pyfloat \<Rightarrow> acc \<Rightarrow> acc" where
  "receipt_confidence_step c a =
     (if float_less c (1 / 2)
      then (fst a @ [''Low receipt confidence: '' @ format_float 2 c], snd a + 20)
      else a)"

definition verdict :: "acc \<Rightarrow> py_error + FraudDetectionResponse" where
  "verdict a =
     (let risk_score = snd a;
          is_fraudulent = (risk_score > 60)
      in case py_truediv risk_score 100 of
           Inl e \<Rightarrow> Inl e
         | Inr q \<Rightarrow>
             Inr \<lparr>isFraudulent = is_fraudulent, confidence_out = min q 1,
                  fraudReasons = fst a, riskScore = risk_score\<rparr>)"

definition score_request :: "env \<Rightarrow> FraudDetectionRequest \<Rightarrow> py_error + FraudDetectionResponse" where
  "score_request e request =
     (let a = ([], 0);
          a = text_quality_step (review_text request) a
      in case detect_review_patterns (review_text request) of
           Inl err \<Rightarrow> Inl err
         | Inr patterns \<Rightarrow>
             let a = patterns_step patterns a
             in case analyze_review_sentiment (review_text request) of
                  Inl err \<Rightarrow> Inl err
                | Inr s \<Rightarrow>
                    let a = sentiment_step s a;
                        a = reputation_step (user_reputation request) a
                    in case validate_receipt_consistency e (receipt_data request)
                              (business_details request) of
                         Inl err \<Rightarrow> Inl err
                       | Inr receipt_issues \<Rightarrow>
                           let a = receipt_issues_step receipt_issues a;
                               a = receipt_confidence_step (confidence (receipt_data request)) a
                           in verdict a)"

definition detect_fraud :: "env \<Rightarrow> FraudDetectionRequest \<Rightarrow> http_exception + FraudDetectionResponse" where
  "detect_fraud e request =
     (case score_request e request of
        Inl err \<Rightarrow> Inl (HTTPException 500 err)
      | Inr response \<Rightarrow> Inr response)"
section \<open>Auxiliary definitions of the proofs\<close>

text \<open>The recurrence the loops implement, on prefix lengths.\<close>

fun lev :: "'a list \<Rightarrow> 'a list \<Rightarrow> nat \<Rightarrow> nat \<Rightarrow> int" where
  "lev s t 0 j = int j"
| "lev s t (Suc i) 0 = int (Suc i)"
| "lev s t (Suc i) (Suc j) =
     (if s ! i = t ! j then lev s t i j
      else min (lev s t i (Suc j) + 1) (min (lev s t (Suc i) j + 1) (lev s t i j + 1)))"

text \<open>The matrix has \<open>m + 1\<close> rows of \<open>n + 1\<close> cells.\<close>

definition shape :: "nat \<Rightarrow> nat \<Rightarrow> matrix \<Rightarrow> bool" where
  "shape m n M = (length M = Suc m \<and> (\<forall>r \<le> m. length (M ! r) = Suc n))"

text \<open>
  The loop invariant: every cell of a row above \<open>i\<close>, of row \<open>i\<close> left of column \<open>j\<close>, of
  row 0 and of column 0 holds the value of the recurrence.
\<close>

definition filled :: "'a list \<Rightarrow> 'a list \<Rightarrow> nat \<Rightarrow> nat \<Rightarrow> matrix \<Rightarrow> nat \<Rightarrow> nat \<Rightarrow> bool" where
  "filled s t m n M i j =
     (shape m n M \<and>
      (\<forall>a b. a \<le> m \<longrightarrow> b \<le> n \<longrightarrow> (a < i \<or> (a = i \<and> b < j) \<or> a = 0 \<or> b = 0) \<longrightarrow>
         get_cell M a b = lev s t a b))"

text \<open>
  The aggregation, cut at the reputation check: the state before it, which the
  reputation does not reach, the two receipt steps after it, and the state the verdict is
  taken from.
\<close>

definition analysed :: "string \<Rightarrow> string list \<Rightarrow> sentiment \<Rightarrow> acc" where
  "analysed text patterns s =
     sentiment_step s (patterns_step patterns (text_quality_step text ([], 0)))"

definition receipt_steps :: "string list \<Rightarrow> pyfloat \<Rightarrow> acc \<Rightarrow> acc" where
  "receipt_steps issues c a = receipt_confidence_step c (receipt_issues_step issues a)"

definition final_acc ::
  "FraudDetectionRequest \<Rightarrow> string list \<Rightarrow> sentiment \<Rightarrow> string list \<Rightarrow> acc" where
  "final_acc request patterns s issues =
     receipt_steps issues (confidence (receipt_data request))
       (reputation_step (user_reputation request) (analysed (review_text request) patterns s))"

text \<open>Every reason so far has added between 10 and 25 to the score.\<close>

definition bounded :: "acc \<Rightarrow> bool" where
  "bounded a = (10 * int (length (fst a)) \<le> snd a \<and> snd a \<le> 25 * int (length (fst a)))"

text \<open>The environment and the requests the theorems are run on.\<close>

definition env0 :: env where
  "env0 = \<lparr>fromisoformat = fromisoformat_core, now = 63900000000000000\<rparr>"

definition no_receipt :: ReceiptData where
  "no_receipt =
     \<lparr>businessName = None, businessAddress = None, businessPhone = None, amount = None,
      date = None, items = None, receiptNumber = None, confidence = Finite (9 / 10)\<rparr>"

definition joes :: BusinessDetails where
  "joes = \<lparr>name = ''Joe's Pizza'', address = None, phone = None, email = None\<rparr>"

definition request0 :: FraudDetectionRequest where
  "request0 =
     \<lparr>review_text = ''ok'', receipt_data = no_receipt, business_details = joes,
      user_reputation = 50\<rparr>"
section \<open>Properties\<close>

subsection \<open>Rounding to binary64\<close>

lemma round_half_even_nonneg: "0 \<le> x \<Longrightarrow> 0 \<le> round_half_even x"
  by (auto simp: round_half_even_def Let_def)

lemma round_half_even_le: "x < of_int k \<Longrightarrow> round_half_even x \<le> k"
  by (auto simp: round_half_even_def Let_def floor_less_iff [symmetric])

lemma fl_nonneg: "0 \<le> x \<Longrightarrow> 0 \<le> fl x"
  by (auto simp: fl_def Let_def round_half_even_nonneg)

lemma ilog2_bounds:
  assumes "0 < x"
  shows "2 powi (ilog2 x) \<le> x" and "x < 2 powi (ilog2 x + 1)"
proof -
  obtain a b where q: "quotient_of x = (a, b)" by (cases "quotient_of x")
  have b: "0 < b" using q by (rule quotient_of_denom_pos)
  have x: "x = of_int a / of_int b" using q by (rule quotient_of_div)
  have a: "0 < a" using assms b x by (simp add: zero_less_divide_iff)
  define la lb where "la = bitlen a" and "lb = bitlen b"
  have la: "2 ^ nat (la - 1) \<le> a" "a < 2 ^ nat la"
    using bitlen_bounds [OF a] by (simp_all add: la_def)
  have lb: "2 ^ nat (lb - 1) \<le> b" "b < 2 ^ nat lb"
    using bitlen_bounds [OF b] by (simp_all add: lb_def)
  have la1: "1 \<le> la" and lb1: "1 \<le> lb"
    using a b by (auto simp: la_def lb_def bitlen_alt_def)
  have ra: "(2::rat) powi (la - 1) \<le> of_int a" "of_int a < (2::rat) powi la"
  proof -
    have "(of_int (2 ^ nat (la - 1)) :: rat) \<le> of_int a"
      using la(1) by (simp only: of_int_le_iff)
    then show "(2::rat) powi (la - 1) \<le> of_int a"
      using la1 by (simp add: power_int_def)
    have "(of_int a :: rat) < of_int (2 ^ nat la)"
      using la(2) by (simp only: of_int_less_iff)
    then show "of_int a < (2::rat) powi la"
      using la1 by (simp add: power_int_def)
  qed
  have rb: "(2::rat) powi (lb - 1) \<le> of_int b" "of_int b < (2::rat) powi lb"
  proof -
    have "(of_int (2 ^ nat (lb - 1)) :: rat) \<le> of_int b"
      using lb(1) by (simp only: of_int_le_iff)
    then show "(2::rat) powi (lb - 1) \<le> of_int b"
      using lb1 by (simp add: power_int_def)
    have "(of_int b :: rat) < of_int (2 ^ nat lb)"
      using lb(2) by (simp only: of_int_less_iff)
    then show "of_int b < (2::rat) powi lb"
      using lb1 by (simp add: power_int_def)
  qed
  have pb: "(0::rat) < of_int b" using b by simp
  have lo: "2 powi (la - lb - 1) < x"
  proof -
    have "(2::rat) powi (la - lb - 1) = 2 powi (la - 1) / 2 powi lb"
      by (simp add: power_int_diff)
    also have "\<dots> \<le> of_int a / 2 powi lb"
      using ra(1) by (simp add: divide_right_mono)
    also have "\<dots> < of_int a / of_int b"
      using rb(2) a pb by (simp add: divide_strict_left_mono)
    finally show ?thesis by (simp add: x)
  qed
  have hi: "x < 2 powi (la - lb + 1)"
  proof -
    have "x = of_int a / of_int b" by (rule x)
    also have "\<dots> < 2 powi la / of_int b"
      using ra(2) pb by (simp add: divide_strict_right_mono)
    also have "\<dots> \<le> 2 powi la / 2 powi (lb - 1)"
      using rb(1) pb by (intro divide_left_mono) auto
    also have "\<dots> = 2 powi (la - lb + 1)"
      by (simp add: power_int_diff power_int_add)
    finally show ?thesis .
  qed
  have e: "ilog2 x = (if x < 2 powi (la - lb) then la - lb - 1 else la - lb)"
    by (simp add: ilog2_def q la_def lb_def Let_def)
  show "2 powi (ilog2 x) \<le> x" using lo by (auto simp: e)
  show "x < 2 powi (ilog2 x + 1)" using hi by (auto simp: e)
qed

lemma fl_le_pow:
  assumes "0 < x"
  shows "fl x \<le> 2 powi (ilog2 x + 1)"
proof -
  define e where "e = ilog2 x"
  define u :: rat where "u = 2 powi (e - 52)"
  have u: "0 < u" by (simp add: u_def)
  have "x / u < 2 powi (e + 1) / u"
    using ilog2_bounds(2) [OF assms] u by (simp add: divide_strict_right_mono e_def)
  also have "\<dots> = 2 ^ 53"
    by (simp add: u_def power_int_diff power_int_add)
  finally have "x / u < of_int (2 ^ 53)" by simp
  then have "round_half_even (x / u) \<le> 2 ^ 53"
    by (rule round_half_even_le)
  then have "(of_int (round_half_even (x / u)) :: rat) \<le> of_int (2 ^ 53)"
    by (simp only: of_int_le_iff)
  then have "of_int (round_half_even (x / u)) * u \<le> 2 ^ 53 * u"
    using u by simp
  also have "\<dots> = 2 powi (e + 1)"
    by (simp add: u_def power_int_diff power_int_add)
  finally show ?thesis
    using assms by (simp add: fl_def Let_def e_def u_def)
qed

lemma fl_one: "fl 1 = 1"
  by code_simp

lemma fl_le_one:
  assumes "0 \<le> x" and "x \<le> 1"
  shows "fl x \<le> 1"
proof -
  consider "x = 0" | "x = 1" | "0 < x" "x < 1" using assms by fastforce
  then show ?thesis
  proof cases
    case 1
    then show ?thesis by (simp add: fl_def)
  next
    case 2
    then show ?thesis by (simp add: fl_one)
  next
    case 3
    have "(2::rat) powi (ilog2 x) < 2 powi 0"
      using ilog2_bounds(1) [OF 3(1)] 3(2) by simp
    then have "ilog2 x < 0"
      by (rule power_int_le_imp_less_exp [rotated]) auto
    then have "(2::rat) powi (ilog2 x + 1) \<le> 2 powi 0"
      by (intro power_int_increasing) auto
    then show ?thesis
      using fl_le_pow [OF 3(1)] by simp
  qed
qed


subsection \<open>The matrix loops compute the edit distance of the prefixes\<close>

lemma lev_0_right: "lev s t i 0 = int i"
  by (cases i) simp_all

lemma lev_sym: "lev s t i j = lev t s j i"
  by (induction s t i j rule: lev.induct) (auto simp: lev_0_right min.commute min.left_commute)

lemma shape_set_cell: "shape m n M \<Longrightarrow> shape m n (set_cell M i j v)"
  by (cases "i < length M") (auto simp: shape_def set_cell_def nth_list_update less_Suc_eq_le)

lemma get_set_cell:
  "shape m n M \<Longrightarrow> i \<le> m \<Longrightarrow> j \<le> n \<Longrightarrow>
   get_cell (set_cell M i j v) a b = (if a = i \<and> b = j then v else get_cell M a b)"
  by (auto simp: shape_def set_cell_def get_cell_def nth_list_update less_Suc_eq_le)

lemma shape_init: "shape m n (replicate (m + 1) (replicate (n + 1) 0))"
  by (auto simp: shape_def less_Suc_eq_le simp flip: replicate_Suc simp del: replicate.simps)

text \<open>First column.\<close>

lemma first_column:
  "shape m n M \<Longrightarrow> k \<le> Suc m \<Longrightarrow>
   shape m n (fold (\<lambda>i M. set_cell M i 0 (int i)) [0..<k] M) \<and>
   (\<forall>a b. get_cell (fold (\<lambda>i M. set_cell M i 0 (int i)) [0..<k] M) a b =
      (if a < k \<and> b = 0 then int a else get_cell M a b))"
proof (induction k)
  case 0
  then show ?case by simp
next
  case (Suc k)
  then show ?case
    by (auto simp: shape_set_cell get_set_cell)
qed

lemma first_row:
  "shape m n M \<Longrightarrow> k \<le> Suc n \<Longrightarrow>
   shape m n (fold (\<lambda>j M. set_cell M 0 j (int j)) [0..<k] M) \<and>
   (\<forall>a b. get_cell (fold (\<lambda>j M. set_cell M 0 j (int j)) [0..<k] M) a b =
      (if a = 0 \<and> b < k then int b else get_cell M a b))"
proof (induction k)
  case 0
  then show ?case by simp
next
  case (Suc k)
  then show ?case
    by (auto simp: shape_set_cell get_set_cell)
qed

lemma filled_fill_cell:
  assumes "filled s t m n M i j" and "1 \<le> i" and "i \<le> m" and "1 \<le> j" and "j \<le> n"
  shows "filled s t m n (fill_cell s t i j M) i (Suc j)"
proof -
  obtain i' j' where ij: "i = Suc i'" "j = Suc j'"
    using assms(2,4) by (metis Suc_le_D One_nat_def)
  have sh: "shape m n M" using assms(1) by (simp add: filled_def)
  have old: "get_cell M a b = lev s t a b"
    if "a \<le> m" "b \<le> n" "a < i \<or> (a = i \<and> b < j) \<or> a = 0 \<or> b = 0" for a b
    using assms(1) that unfolding filled_def by blast
  have d: "get_cell M i' j' = lev s t i' j'"
    using assms(3,5) ij by (intro old) auto
  have u: "get_cell M i' j = lev s t i' j"
    using assms(3,5) ij by (intro old) auto
  have l: "get_cell M i j' = lev s t i j'"
    using assms(3,5) ij by (intro old) auto
  define v where "v = lev s t i j"
  have fc: "fill_cell s t i j M = set_cell M i j v"
    using d u l ij by (simp add: fill_cell_def v_def)
  show ?thesis
    unfolding filled_def fc
  proof (intro conjI allI impI)
    show "shape m n (set_cell M i j v)" by (rule shape_set_cell [OF sh])
  next
    fix a b
    assume ab: "a \<le> m" "b \<le> n" "a < i \<or> a = i \<and> b < Suc j \<or> a = 0 \<or> b = 0"
    show "get_cell (set_cell M i j v) a b = lev s t a b"
    proof (cases "a = i \<and> b = j")
      case True
      then show ?thesis using get_set_cell [OF sh assms(3,5)] by (simp add: v_def)
    next
      case False
      then have "get_cell (set_cell M i j v) a b = get_cell M a b"
        using get_set_cell [OF sh assms(3,5), of v a b] by auto
      also have "\<dots> = lev s t a b"
        using ab False by (intro old) auto
      finally show ?thesis .
    qed
  qed
qed

lemma filled_row:
  assumes "filled s t m n M i 1" and "1 \<le> i" and "i \<le> m"
  shows "1 \<le> k \<Longrightarrow> k \<le> Suc n \<Longrightarrow> filled s t m n (fold (fill_cell s t i) [1..<k] M) i k"
proof (induction k)
  case 0
  then show ?case by simp
next
  case (Suc k)
  show ?case
  proof (cases "k = 0")
    case True
    then show ?thesis using assms(1) by simp
  next
    case False
    then have "filled s t m n (fold (fill_cell s t i) [1..<k] M) i k"
      using Suc by simp
    then have "filled s t m n (fill_cell s t i k (fold (fill_cell s t i) [1..<k] M)) i (Suc k)"
      using False Suc.prems assms(2,3) by (intro filled_fill_cell) auto
    then show ?thesis using False by simp
  qed
qed

lemma filled_next_row:
  assumes "filled s t m n M i (Suc n)"
  shows "filled s t m n M (Suc i) 1"
  unfolding filled_def
proof (intro conjI allI impI)
  show "shape m n M" using assms by (simp add: filled_def)
next
  fix a b
  assume ab: "a \<le> m" "b \<le> n" and "a < Suc i \<or> a = Suc i \<and> b < 1 \<or> a = 0 \<or> b = 0"
  then have "a < i \<or> a = i \<and> b < Suc n \<or> a = 0 \<or> b = 0" by auto
  then show "get_cell M a b = lev s t a b"
    using assms ab unfolding filled_def by blast
qed

lemma filled_rows:
  assumes "filled s t m n M 1 1"
  shows "1 \<le> k \<Longrightarrow> k \<le> Suc m \<Longrightarrow>
    filled s t m n (fold (\<lambda>i M. fold (fill_cell s t i) [1..<Suc n] M) [1..<k] M) k 1"
proof (induction k)
  case 0
  then show ?case by simp
next
  case (Suc k)
  show ?case
  proof (cases "k = 0")
    case True
    then show ?thesis using assms by simp
  next
    case False
    let ?f = "\<lambda>i M. fold (fill_cell s t i) [1..<Suc n] M"
    let ?M = "fold ?f [1..<k] M"
    have "filled s t m n ?M k 1" using False Suc by simp
    then have "filled s t m n (?f k ?M) k (Suc n)"
      using False Suc.prems by (intro filled_row) auto
    then have "filled s t m n (?f k ?M) (Suc k) 1"
      by (rule filled_next_row)
    moreover have "[1..<Suc k] = [1..<k] @ [k]"
      using False by simp
    ultimately show ?thesis
      by (simp only: fold_append fold_simps comp_apply)
  qed
qed

lemma levenshtein_distance_lev:
  "levenshtein_distance s t = lev s t (length s) (length t)"
proof -
  define m n where "m = length s" and "n = length t"
  define M1 where "M1 = fold (\<lambda>i M. set_cell M i 0 (int i)) [0..<m + 1] (replicate (m + 1) (replicate (n + 1) 0))"
  define M2 where "M2 = fold (\<lambda>j M. set_cell M 0 j (int j)) [0..<n + 1] M1"
  define M3 where "M3 = fold (\<lambda>i M. fold (fill_cell s t i) [1..<n + 1] M) [1..<m + 1] M2"
  have 1: "shape m n M1" "\<And>a b. get_cell M1 a b = (if a < m + 1 \<and> b = 0 then int a else get_cell (replicate (m + 1) (replicate (n + 1) 0)) a b)"
    using first_column [OF shape_init, of "m + 1" m n] by (simp_all add: M1_def)
  have 2: "shape m n M2" "\<And>a b. get_cell M2 a b = (if a = 0 \<and> b < n + 1 then int b else get_cell M1 a b)"
    using first_row [OF 1(1), of "n + 1"] by (simp_all add: M2_def)
  have "filled s t m n M2 1 1"
    unfolding filled_def using 1 2 by (auto simp: lev_0_right)
  then have "filled s t m n M3 (Suc m) 1"
    unfolding M3_def using filled_rows [of s t m n M2 "Suc m"] by (simp del: upt_Suc)
  then have "get_cell M3 m n = lev s t m n"
    unfolding filled_def by blast
  then show ?thesis
    by (simp add: levenshtein_distance_def Let_def M1_def M2_def M3_def m_def n_def)
qed

lemma lev_nonneg: "0 \<le> lev s t i j"
  by (induction s t i j rule: lev.induct) auto

lemma lev_le_max: "lev s t i j \<le> int (max i j)"
  by (induction s t i j rule: lev.induct) auto

lemma lev_diag: "lev s s i i = 0"
  by (induction i) auto

subsection \<open>The distance behind the similarity\<close>

lemma levenshtein_distance_sym: "levenshtein_distance a b = levenshtein_distance b a"
  by (simp add: levenshtein_distance_lev lev_sym [of a b])

lemma levenshtein_distance_bounds:
  "0 \<le> levenshtein_distance a b" "levenshtein_distance a b \<le> int (max (length a) (length b))"
  by (simp_all add: levenshtein_distance_lev lev_nonneg lev_le_max)

lemma levenshtein_distance_self: "levenshtein_distance s s = 0"
  by (simp add: levenshtein_distance_lev lev_diag)

lemma longer_shorter_swap:
  "length a \<noteq> length b \<Longrightarrow> longer_of a b = longer_of b a \<and> shorter_of a b = shorter_of b a"
  by (auto simp: longer_of_def shorter_of_def)

lemma length_longer_of: "length (longer_of a b) = max (length a) (length b)"
  by (auto simp: longer_of_def)

lemma length_shorter_of: "length (shorter_of a b) = min (length a) (length b)"
  by (auto simp: shorter_of_def)

subsection \<open>The analyzers\<close>

lemma clamp_range: "0 \<le> max 0 (min 100 (x::rat)) \<and> max 0 (min 100 x) \<le> 100"
  by simp

lemma text_quality_cases:
  "\<exists>score. calculate_text_quality_score text =
     (if text = [] \<or> length (strip text) < 10 then 0 else max 0 (min 100 score))"
  unfolding calculate_text_quality_score_def Let_def by (rule exI) (rule refl)

lemma py_truediv_nonneg:
  "0 \<le> a \<Longrightarrow> 0 < b \<Longrightarrow> \<exists>q. py_truediv a b = Inr q \<and> 0 \<le> q"
  by (simp add: py_truediv_def fl_nonneg)

text \<open>What the amount check reports: exactly the amounts below zero.\<close>

lemma amount_issues_cases:
  "amount_issues a =
     (if a = Some NegInf \<or> (\<exists>x. a = Some (Finite x) \<and> x < 0)
      then [''Invalid amount in receipt''] else [])"
proof (cases a)
  case None
  then show ?thesis by (simp add: amount_issues_def)
next
  case (Some f)
  then show ?thesis by (cases f) (auto simp: amount_issues_def)
qed

text \<open>A parsed date that carries an offset leaves the date check with \<^verbatim>\<open>TypeError\<close>.\<close>

lemma date_issues_aware:
  "fromisoformat e (replace_Z d) = Some receipt_date \<Longrightarrow> utcoffset receipt_date = Some off \<Longrightarrow>
   date_issues e d = Inl TypeError"
  by (simp add: date_issues_def)

text \<open>Otherwise it returns at most one reason, the first that applies.\<close>

lemma date_issues_naive:
  "fromisoformat e (replace_Z d) = None \<Longrightarrow>
     date_issues e d = Inr [''Invalid date format in receipt'']"
  "fromisoformat e (replace_Z d) = Some receipt_date \<Longrightarrow> utcoffset receipt_date = None \<Longrightarrow>
     date_issues e d =
       (if wall_micros receipt_date > now e then Inr [''Future date in receipt'']
        else if timedelta_days (now e - wall_micros receipt_date) > 365
        then Inr [''Receipt too old (>1 year)'']
        else Inr [])"
  by (simp_all add: date_issues_def)

subsection \<open>The aggregation\<close>

lemma verdict_eq:
  "verdict a = Inr \<lparr>isFraudulent = (snd a > 60), confidence_out = min (fl (of_int (snd a) / 100)) 1,
     fraudReasons = fst a, riskScore = snd a\<rparr>"
  by (simp add: verdict_def py_truediv_def Let_def)

lemma score_request_cases:
  "score_request e request =
     (case detect_review_patterns (review_text request) of
        Inl err \<Rightarrow> Inl err
      | Inr patterns \<Rightarrow>
          (case analyze_review_sentiment (review_text request) of
             Inl err \<Rightarrow> Inl err
           | Inr s \<Rightarrow>
               (case validate_receipt_consistency e (receipt_data request)
                       (business_details request) of
                  Inl err \<Rightarrow> Inl err
                | Inr issues \<Rightarrow> verdict (final_acc request patterns s issues))))"
  by (simp add: score_request_def Let_def analysed_def receipt_steps_def final_acc_def
      split: sum.splits)

lemma detect_fraud_Inr:
  assumes "detect_fraud e request = Inr r"
  obtains patterns s issues where "verdict (final_acc request patterns s issues) = Inr r"
  using assms by (auto simp: detect_fraud_def score_request_cases split: sum.splits)

lemma bounded_init: "bounded ([], 0)"
  by (simp add: bounded_def)

lemma bounded_text_quality_step: "bounded a \<Longrightarrow> bounded (text_quality_step text a)"
  by (auto simp: bounded_def text_quality_step_def Let_def)

lemma bounded_patterns_step: "bounded a \<Longrightarrow> bounded (patterns_step ps a)"
  by (auto simp: bounded_def patterns_step_def)

lemma bounded_sentiment_step: "bounded a \<Longrightarrow> bounded (sentiment_step s a)"
  by (auto simp: bounded_def sentiment_step_def)

lemma bounded_reputation_step: "bounded a \<Longrightarrow> bounded (reputation_step r a)"
  by (auto simp: bounded_def reputation_step_def)

lemma bounded_receipt_issues_step: "bounded a \<Longrightarrow> bounded (receipt_issues_step is a)"
  by (auto simp: bounded_def receipt_issues_step_def)

lemma bounded_receipt_confidence_step: "bounded a \<Longrightarrow> bounded (receipt_confidence_step c a)"
  by (auto simp: bounded_def receipt_confidence_step_def)

lemma bounded_final: "bounded (final_acc request patterns s issues)"
  unfolding final_acc_def receipt_steps_def analysed_def
  by (intro bounded_receipt_confidence_step bounded_receipt_issues_step bounded_reputation_step
      bounded_sentiment_step bounded_patterns_step bounded_text_quality_step bounded_init)

lemma receipt_steps_shape:
  "\<exists>post k. \<forall>a. receipt_steps issues c a = (fst a @ post, snd a + k)"
proof (cases "float_less c (1 / 2)")
  case True
  then have "\<forall>a. receipt_steps issues c a =
      (fst a @ (issues @ [''Low receipt confidence: '' @ format_float 2 c]),
       snd a + (int (length issues) * 15 + 20))"
    by (simp add: receipt_steps_def receipt_confidence_step_def receipt_issues_step_def)
  then show ?thesis by blast
next
  case False
  then have "\<forall>a. receipt_steps issues c a = (fst a @ issues, snd a + int (length issues) * 15)"
    by (simp add: receipt_steps_def receipt_confidence_step_def receipt_issues_step_def)
  then show ?thesis by blast
qed

lemma final_acc_reputation:
  assumes "r < 30" and "30 \<le> r'"
  shows "\<exists>pre post.
    fst (final_acc (request\<lparr>user_reputation := r\<rparr>) patterns s issues) =
      pre @ [''Low user reputation: '' @ str_int r] @ post \<and>
    fst (final_acc (request\<lparr>user_reputation := r'\<rparr>) patterns s issues) = pre @ post \<and>
    snd (final_acc (request\<lparr>user_reputation := r\<rparr>) patterns s issues) =
      snd (final_acc (request\<lparr>user_reputation := r'\<rparr>) patterns s issues) + 20"
proof -
  define a where "a = analysed (review_text request) patterns s"
  obtain post k where t: "\<And>a. receipt_steps issues (confidence (receipt_data request)) a =
      (fst a @ post, snd a + k)"
    using receipt_steps_shape by blast
  have "fst (final_acc (request\<lparr>user_reputation := r\<rparr>) patterns s issues) =
      fst a @ [''Low user reputation: '' @ str_int r] @ post"
    and "fst (final_acc (request\<lparr>user_reputation := r'\<rparr>) patterns s issues) = fst a @ post"
    and "snd (final_acc (request\<lparr>user_reputation := r\<rparr>) patterns s issues) =
      snd (final_acc (request\<lparr>user_reputation := r'\<rparr>) patterns s issues) + 20"
    using assms by (simp_all add: final_acc_def t reputation_step_def a_def)
  then show ?thesis by blast
qed

subsection \<open>Runs on concrete requests\<close>

lemma run_request0:
  "detect_fraud env0 request0 =
     Inr \<lparr>isFraudulent = False, confidence_out = fl (40 / 100),
          fraudReasons = [''Low text quality score: 0.0'', ''Overly neutral sentiment''],
          riskScore = 40\<rparr>"
  by code_simp

lemma run_low_reputation:
  "detect_fraud env0 (request0\<lparr>user_reputation := 10\<rparr>) =
     Inr \<lparr>isFraudulent = False, confidence_out = fl (60 / 100),
          fraudReasons = [''Low text quality score: 0.0'', ''Overly neutral sentiment'',
            ''Low user reputation: 10''],
          riskScore = 60\<rparr>"
  by code_simp

lemma run_low_confidence:
  "detect_fraud env0
     (request0\<lparr>user_reputation := 10, receipt_data := no_receipt\<lparr>confidence := Finite (1 / 10)\<rparr>\<rparr>) =
     Inr \<lparr>isFraudulent = True, confidence_out = fl (80 / 100),
          fraudReasons = [''Low text quality score: 0.0'', ''Overly neutral sentiment'',
            ''Low user reputation: 10'', ''Low receipt confidence: 0.10''],
          riskScore = 80\<rparr>"
  by code_simp

section \<open>The claims\<close>

subsection \<open>The receipt validator\<close>

text \<open>
  C1. Claimed: for every receipt with a date, also one written with a trailing \<^verbatim>\<open>Z\<close>,
  \<^verbatim>\<open>validate_receipt_consistency\<close> completes and adds at most one of the three date
  reasons. The code turns the \<^verbatim>\<open>Z\<close> into the offset \<^verbatim>\<open>+00:00\<close>, so the parsed date
  carries a \<^verbatim>\<open>tzinfo\<close>, and then compares it with the naive \<^verbatim>\<open>datetime.now()\<close>: that
  comparison raises \<^verbatim>\<open>TypeError\<close>, which the \<^verbatim>\<open>except ValueError\<close> does not catch. On the
  date \<^verbatim>\<open>2024-01-15T10:30:00Z\<close> the validator raises and \<^verbatim>\<open>detect_fraud\<close> answers with its
  error 500 in place of a score. (\<open>date_issues_aware\<close> states it for every parser and
  every date with an offset; \<open>date_issues_naive\<close> is the behaviour the claim describes,
  on dates without one.)
\<close>

theorem date_with_Z_aborts_scoring:
  "validate_receipt_consistency env0 (no_receipt\<lparr>date := Some ''2024-01-15T10:30:00Z''\<rparr>) joes
     = Inl TypeError \<and>
   detect_fraud env0
     (request0\<lparr>receipt_data := no_receipt\<lparr>date := Some ''2024-01-15T10:30:00Z''\<rparr>\<rparr>)
     = Inl (HTTPException 500 TypeError)"
  by code_simp

text \<open>
  C2. Claimed: an amount that is present and at most 0, exactly 0 included, adds the
  reason "Invalid amount in receipt" once. The code tests \<^verbatim>\<open>receipt_data.amount and
  receipt_data.amount <= 0\<close>: the amount 0.0 is false as a truth value, so the comparison
  \<^verbatim>\<open><= 0\<close> is never reached for it and nothing is reported; a negative amount is
  reported once. (\<open>amount_issues_cases\<close> gives the amounts that are reported: those below
  zero.)
\<close>

theorem zero_amount_not_reported:
  "validate_receipt_consistency env0 (no_receipt\<lparr>amount := Some (Finite 0)\<rparr>) joes = Inr [] \<and>
   validate_receipt_consistency env0 (no_receipt\<lparr>amount := Some NegZero\<rparr>) joes = Inr [] \<and>
   validate_receipt_consistency env0 (no_receipt\<lparr>amount := Some (Finite (- 5))\<rparr>) joes
     = Inr [''Invalid amount in receipt'']"
  by code_simp

subsection \<open>The aggregation\<close>

text \<open>
  C3. Whenever \<^verbatim>\<open>detect_fraud\<close> returns a response, \<^verbatim>\<open>isFraudulent\<close> is \<^verbatim>\<open>riskScore > 60\<close> and
  \<^verbatim>\<open>confidence\<close> is \<^verbatim>\<open>min(riskScore / 100, 1.0)\<close>. The verdict taken at a score of 61 is
  fraudulent with confidence 0.61, which is below 1: the confidence is not clamped to
  agree with the verdict. At 150 the confidence is 1.0.
\<close>

theorem verdict_of_risk_score:
  "(detect_fraud e request = Inr r \<longrightarrow>
      isFraudulent r = (riskScore r > 60) \<and>
      confidence_out r = min (fl (of_int (riskScore r) / 100)) 1) \<and>
   verdict (reasons, 61) =
     Inr \<lparr>isFraudulent = True, confidence_out = fl (61 / 100), fraudReasons = reasons,
          riskScore = 61\<rparr> \<and>
   fl (61 / 100) < 1 \<and>
   verdict (reasons, 150) =
     Inr \<lparr>isFraudulent = True, confidence_out = 1, fraudReasons = reasons, riskScore = 150\<rparr>"
proof -
  have 1: "fl (61 / 100) < 1" by code_simp
  have 2: "fl (150 / 100) = 3 / 2" by code_simp
  have "detect_fraud e request = Inr r \<longrightarrow>
      isFraudulent r = (riskScore r > 60) \<and>
      confidence_out r = min (fl (of_int (riskScore r) / 100)) 1"
    by (auto elim!: detect_fraud_Inr simp: verdict_eq)
  then show ?thesis using 1 2 by (simp add: verdict_eq)
qed

theorem verdict_of_risk_score_witness:
  "detect_fraud env0
     (request0\<lparr>user_reputation := 10, receipt_data := no_receipt\<lparr>confidence := Finite (1 / 10)\<rparr>\<rparr>) =
     Inr \<lparr>isFraudulent = True, confidence_out = fl (80 / 100),
          fraudReasons = [''Low text quality score: 0.0'', ''Overly neutral sentiment'',
            ''Low user reputation: 10'', ''Low receipt confidence: 0.10''],
          riskScore = 80\<rparr> \<and>
   True = ((80::int) > 60) \<and> fl (80 / 100) = min (fl (of_int 80 / 100)) 1"
proof -
  note h = run_low_confidence
  show ?thesis using h verdict_of_risk_score [of env0 _ _ "[]", THEN conjunct1, rule_format, OF h]
    by simp
qed

text \<open>
  C4. Take two requests that differ in the reputation only, one below 30 and one of at
  least 30. Either both are scored, and then the risk score of the first is the score of
  the second plus 20 and its reasons are those of the second with one reason more, the
  one of the low reputation, at its place in the order of the checks; or both end in
  the same error.
\<close>

theorem low_reputation_adds_twenty:
  assumes "r < 30" and "30 \<le> r'"
  shows "case (detect_fraud e (request\<lparr>user_reputation := r\<rparr>),
               detect_fraud e (request\<lparr>user_reputation := r'\<rparr>)) of
           (Inr low, Inr high) \<Rightarrow>
             riskScore low = riskScore high + 20 \<and>
             (\<exists>pre post.
                fraudReasons low = pre @ [''Low user reputation: '' @ str_int r] @ post \<and>
                fraudReasons high = pre @ post)
         | (Inl x, Inl y) \<Rightarrow> x = y
         | _ \<Rightarrow> False"
proof -
  let ?low = "request\<lparr>user_reputation := r\<rparr>" and ?high = "request\<lparr>user_reputation := r'\<rparr>"
  show ?thesis
  proof (cases "score_request e ?low")
    case (Inl err)
    then have "score_request e ?high = Inl err"
      by (simp add: score_request_cases verdict_eq split: sum.splits)
    with Inl show ?thesis by (simp add: detect_fraud_def)
  next
    case (Inr low)
    then obtain patterns s issues where
      p: "detect_review_patterns (review_text request) = Inr patterns"
      and s: "analyze_review_sentiment (review_text request) = Inr s"
      and i: "validate_receipt_consistency e (receipt_data request) (business_details request)
                = Inr issues"
      by (auto simp: score_request_cases split: sum.splits)
    obtain lo hi where l: "detect_fraud e ?low = Inr lo"
      "fraudReasons lo = fst (final_acc ?low patterns s issues)"
      "riskScore lo = snd (final_acc ?low patterns s issues)"
      and h: "detect_fraud e ?high = Inr hi"
      "fraudReasons hi = fst (final_acc ?high patterns s issues)"
      "riskScore hi = snd (final_acc ?high patterns s issues)"
      by (simp add: detect_fraud_def score_request_cases p s i verdict_eq)
    have "riskScore lo = riskScore hi + 20 \<and>
        (\<exists>pre post.
           fraudReasons lo = pre @ [''Low user reputation: '' @ str_int r] @ post \<and>
           fraudReasons hi = pre @ post)"
      using final_acc_reputation [OF assms, of request patterns s issues]
      unfolding l(2,3) h(2,3) by blast
    then show ?thesis
      by (simp only: l(1) h(1) prod.case sum.case)
  qed
qed

theorem low_reputation_adds_twenty_witness:
  "(10::int) < 30 \<and> (30::int) \<le> 50 \<and>
   detect_fraud env0 (request0\<lparr>user_reputation := 10\<rparr>) =
     Inr \<lparr>isFraudulent = False, confidence_out = fl (60 / 100),
          fraudReasons = [''Low text quality score: 0.0'', ''Overly neutral sentiment'',
            ''Low user reputation: 10''],
          riskScore = 60\<rparr> \<and>
   detect_fraud env0 (request0\<lparr>user_reputation := 50\<rparr>) =
     Inr \<lparr>isFraudulent = False, confidence_out = fl (40 / 100),
          fraudReasons = [''Low text quality score: 0.0'', ''Overly neutral sentiment''],
          riskScore = 40\<rparr> \<and>
   (60::int) = 40 + 20 \<and>
   (\<exists>pre post.
      [''Low text quality score: 0.0'', ''Overly neutral sentiment'', ''Low user reputation: 10'']
        = pre @ [''Low user reputation: '' @ str_int 10] @ post \<and>
      [''Low text quality score: 0.0'', ''Overly neutral sentiment''] = pre @ post)"
proof -
  have a: "(10::int) < 30" and b: "(30::int) \<le> 50" by simp_all
  have h: "request0\<lparr>user_reputation := 50\<rparr> = request0" by (simp add: request0_def)
  show ?thesis
    using a b low_reputation_adds_twenty [OF a b, of env0 request0]
    by (simp add: run_low_reputation run_request0 h)
qed

subsection \<open>String similarity\<close>

text \<open>
  C5. For every pair of strings, \<^verbatim>\<open>calculate_string_similarity\<close> returns a value (it does
  not raise \<^verbatim>\<open>ZeroDivisionError\<close>) and the value lies in the closed interval from 0 to 1.
  Past the guard on empty arguments the longer string is not empty, so the branch
  \<^verbatim>\<open>len(longer) == 0\<close> is never taken and the divisor is never zero.
\<close>

theorem similarity_in_unit_interval:
  "(\<exists>v. calculate_string_similarity a b = Inr v \<and> 0 \<le> v \<and> v \<le> 1) \<and>
   (a = [] \<or> b = [] \<or> 0 < length (longer_of a b))"
proof (cases "a = [] \<or> b = []")
  case True
  then show ?thesis by (auto simp: calculate_string_similarity_def)
next
  case False
  define n where "n = length (longer_of a b)"
  define d where "d = levenshtein_distance (longer_of a b) (shorter_of a b)"
  have n: "0 < n" using False by (cases a; cases b) (simp_all add: n_def length_longer_of)
  have d: "0 \<le> d" "d \<le> int n"
    using levenshtein_distance_bounds [of "longer_of a b" "shorter_of a b"]
    by (simp_all add: d_def n_def length_longer_of length_shorter_of)
  define q :: rat where "q = of_int (int n - d) / of_int (int n)"
  have q: "0 \<le> q" "q \<le> 1" using n d by (simp_all add: q_def)
  have "calculate_string_similarity a b = Inr (fl q)"
    using False n
    by (simp add: calculate_string_similarity_def Let_def py_truediv_def q_def n_def d_def)
  then show ?thesis
    using fl_nonneg [OF q(1)] fl_le_one [OF q] n False by (simp add: n_def)
qed

text \<open>
  C6. The similarity of a non-empty string with itself is 1.0, and the similarity is 0.0
  as soon as either argument is empty, also when both are.
\<close>

theorem similarity_self_and_empty:
  "(s \<noteq> [] \<longrightarrow> calculate_string_similarity s s = Inr 1) \<and>
   calculate_string_similarity [] x = Inr 0 \<and> calculate_string_similarity x [] = Inr 0"
  by (simp add: calculate_string_similarity_def Let_def longer_of_def shorter_of_def
      levenshtein_distance_self py_truediv_def fl_one)

theorem similarity_self_and_empty_witness:
  "''kitten'' \<noteq> [] \<and> calculate_string_similarity ''kitten'' ''kitten'' = Inr 1 \<and>
   calculate_string_similarity [] ''kitten'' = Inr 0 \<and>
   calculate_string_similarity ''kitten'' [] = Inr 0"
proof -
  have h: "''kitten'' \<noteq> []" by simp
  show ?thesis using h similarity_self_and_empty [of "''kitten''" "''kitten''"] by blast
qed

text \<open>C7. The similarity is symmetric in its two arguments.\<close>

theorem similarity_symmetric:
  "calculate_string_similarity a b = calculate_string_similarity b a"
proof (cases "length a = length b")
  case True
  then have "longer_of a b = b" "shorter_of a b = a" "longer_of b a = a" "shorter_of b a = b"
    by (simp_all add: longer_of_def shorter_of_def)
  then show ?thesis
    using True
    by (auto simp: calculate_string_similarity_def Let_def levenshtein_distance_sym [of a b])
next
  case False
  then show ?thesis
    using longer_shorter_swap [OF False] by (auto simp: calculate_string_similarity_def Let_def)
qed

subsection \<open>Text quality and sentiment\<close>

text \<open>
  C8. The text quality score lies between 0 and 100, and it is exactly 0.0 when the text
  is empty or its stripped length is below 10.
\<close>

theorem text_quality_range_and_short:
  "0 \<le> calculate_text_quality_score text \<and> calculate_text_quality_score text \<le> 100 \<and>
   (text = [] \<or> length (strip text) < 10 \<longrightarrow> calculate_text_quality_score text = 0)"
proof -
  obtain score where s: "calculate_text_quality_score text =
     (if text = [] \<or> length (strip text) < 10 then 0 else max 0 (min 100 score))"
    using text_quality_cases by blast
  show ?thesis
    unfolding s using clamp_range [of score] by (simp split del: if_split) (auto split: if_splits)
qed

theorem text_quality_range_and_short_witness:
  "length (strip ''  too short '') < 10 \<and> calculate_text_quality_score ''  too short '' = 0"
proof -
  have h: "length (strip ''  too short '') < 10" by code_simp
  show ?thesis using h text_quality_range_and_short [of "''  too short ''"] by blast
qed

text \<open>
  C9. \<^verbatim>\<open>analyze_review_sentiment\<close> returns for every text (no division by zero), its three
  fields are not negative, and for a text without a token the result is exactly
  positive 0, negative 0, neutral 1.
\<close>

theorem sentiment_nonneg_and_empty:
  "(\<exists>s. analyze_review_sentiment text = Inr s \<and>
        0 \<le> positive s \<and> 0 \<le> negative s \<and> 0 \<le> neutral s) \<and>
   (length (split_ws text) = 0 \<longrightarrow>
      analyze_review_sentiment text = Inr \<lparr>positive = 0, negative = 0, neutral = 1\<rparr>)"
proof -
  define t where "t = int (length (split_ws text))"
  define pc where "pc = int (length (filter (\<lambda>word. py_in word (lower text)) positive_words))"
  define nc where "nc = int (length (filter (\<lambda>word. py_in word (lower text)) negative_words))"
  show ?thesis
  proof (cases "t = 0")
    case True
    then show ?thesis by (simp add: analyze_review_sentiment_def Let_def t_def)
  next
    case False
    then have t: "0 < t" by (simp add: t_def)
    obtain p where p: "py_truediv pc t = Inr p" "0 \<le> p"
      using py_truediv_nonneg [OF _ t, of pc] by (auto simp: pc_def)
    obtain n where n: "py_truediv nc t = Inr n" "0 \<le> n"
      using py_truediv_nonneg [OF _ t, of nc] by (auto simp: nc_def)
    have "analyze_review_sentiment text =
        Inr \<lparr>positive = p, negative = n, neutral = max 0 (fsub (fsub 1 p) n)\<rparr>"
      using False p n
      by (simp add: analyze_review_sentiment_def Let_def t_def [symmetric] pc_def [symmetric]
          nc_def [symmetric])
    then show ?thesis using p n False by (simp add: t_def)
  qed
qed

theorem sentiment_nonneg_and_empty_witness:
  "length (split_ws ''   '') = 0 \<and>
   analyze_review_sentiment ''   '' = Inr \<lparr>positive = 0, negative = 0, neutral = 1\<rparr>"
proof -
  have h: "length (split_ws ''   '') = 0" by code_simp
  show ?thesis using h sentiment_nonneg_and_empty [of "''   ''"] by blast
qed

subsection \<open>Score and reasons\<close>

text \<open>
  C10. In every response the risk score is at least 10 times and at most 25 times the
  number of reasons; so the score is 0 exactly when there is no reason, and a fraudulent
  verdict comes with at least one reason.
\<close>

theorem risk_score_bounded_by_reasons:
  assumes "detect_fraud e request = Inr r"
  shows "10 * int (length (fraudReasons r)) \<le> riskScore r \<and>
         riskScore r \<le> 25 * int (length (fraudReasons r)) \<and>
         (riskScore r = 0 \<longleftrightarrow> fraudReasons r = []) \<and>
         (isFraudulent r \<longrightarrow> fraudReasons r \<noteq> [])"
proof -
  obtain patterns s issues where v: "verdict (final_acc request patterns s issues) = Inr r"
    using assms by (rule detect_fraud_Inr)
  define a where "a = final_acc request patterns s issues"
  have b: "bounded a" unfolding a_def by (rule bounded_final)
  have f: "fraudReasons r = fst a" "riskScore r = snd a" "isFraudulent r = (snd a > 60)"
    using v by (auto simp: verdict_eq a_def)
  show ?thesis
    using b unfolding f bounded_def by (cases "fst a") auto
qed

theorem risk_score_bounded_by_reasons_witness:
  "detect_fraud env0 request0 =
     Inr \<lparr>isFraudulent = False, confidence_out = fl (40 / 100),
          fraudReasons = [''Low text quality score: 0.0'', ''Overly neutral sentiment''],
          riskScore = 40\<rparr> \<and>
   10 * int (length [''Low text quality score: 0.0'', ''Overly neutral sentiment'']) \<le> 40 \<and>
   (40::int) \<le> 25 * int (length [''Low text quality score: 0.0'', ''Overly neutral sentiment''])"
proof -
  note h = run_request0
  show ?thesis using h risk_score_bounded_by_reasons [OF h] by simp
qed

end
